theory Spec2Isabelle
  imports Main "HOL-Library.Word"
begin

section \<open>Python strings and library functions\<close>

text \<open>
  A Python \<open>str\<close> is modelled as a \<open>string\<close> in which every \<open>char\<close> stands for one
  code point below 256 (the Latin-1 block), so \<open>length\<close> counts what \<open>len\<close> counts.
  On this block the character classes of Python are: \<open>\d\<close> and the digits \<open>int\<close> reads
  are \<open>0\<close>..\<open>9\<close>; \<open>str.isdigit\<close> also accepts the superscripts U+00B2, U+00B3 and
  U+00B9; \<open>str.lower\<close> shifts \<open>A\<close>..\<open>Z\<close> and U+00C0..U+00DE (without U+00D7) by 32,
  which on these two ranges is setting the bit of value 32.
  Downloaded content is a list of bytes.
\<close>

type_synonym bytes = "8 word list"

datatype exn = Raised string

definition is_decimal :: "char \<Rightarrow> bool" where
  "is_decimal c = (48 \<le> (of_char c :: nat) \<and> (of_char c :: nat) \<le> 57)"

definition is_digit_char :: "char \<Rightarrow> bool" where
  "is_digit_char c = (is_decimal c \<or> (of_char c :: nat) \<in> {178, 179, 185})"

definition isdigit :: "string \<Rightarrow> bool" where
  "isdigit s = (s \<noteq> [] \<and> list_all is_digit_char s)"

definition lower_char :: "char \<Rightarrow> char" where
  "lower_char c =
     (let n = (of_char c :: nat)
      in if (65 \<le> n \<and> n \<le> 90) \<or> (192 \<le> n \<and> n \<le> 222 \<and> n \<noteq> 215)
         then (case c of Char b0 b1 b2 b3 b4 b5 b6 b7 \<Rightarrow> Char b0 b1 b2 b3 b4 True b6 b7)
         else c)"

definition lower :: "string \<Rightarrow> string" where
  "lower s = map lower_char s"

fun startswith :: "string \<Rightarrow> string \<Rightarrow> bool" where
  "startswith s [] = True"
| "startswith [] (c # p) = False"
| "startswith (x # s) (c # p) = (x = c \<and> startswith s p)"

definition endswith :: "string \<Rightarrow> string \<Rightarrow> bool" where
  "endswith s p = startswith (rev s) (rev p)"

text \<open>\<open>contains s p\<close> is Python's \<open>p in s\<close>.\<close>

fun contains :: "string \<Rightarrow> string \<Rightarrow> bool" where
  "contains [] p = (p = [])"
| "contains (x # s) p = (startswith (x # s) p \<or> contains s p)"

definition digit_value :: "char \<Rightarrow> int" where
  "digit_value c = int (of_char c) - 48"

definition int_of_digits :: "string \<Rightarrow> int" where
  "int_of_digits s = foldl (\<lambda>acc c. 10 * acc + digit_value c) 0 s"

text \<open>
  \<open>int(s)\<close> for the strings the code passes to it, which hold digit characters only:
  the value when all of them are decimal digits, \<open>ValueError\<close> otherwise.
\<close>

definition py_int :: "string \<Rightarrow> exn + int" where
  "py_int s = (if s \<noteq> [] \<and> list_all is_decimal s then Inr (int_of_digits s)
               else Inl (Raised ''ValueError''))"

text \<open>\<open>str(n)\<close> for an integer, as an f-string formats it.\<close>

fun str_nat :: "nat \<Rightarrow> string" where
  "str_nat n = (if n < 10 then [''0123456789'' ! n]
                else str_nat (n div 10) @ [''0123456789'' ! (n mod 10)])"

declare str_nat.simps [simp del]

definition str_int :: "int \<Rightarrow> string" where
  "str_int i = (if i < 0 then CHR ''-'' # str_nat (nat (- i)) else str_nat (nat i))"


section \<open>Folder names (parser.py, main.py)\<close>

text \<open>
  \<open>re.search\<close> tries the pattern at every position from the left and returns the first
  match; \<open>m\<close> is the pattern anchored at the start of the text it is given.
\<close>

fun re_search :: "(string \<Rightarrow> 'a option) \<Rightarrow> string \<Rightarrow> 'a option" where
  "re_search m [] = m []"
| "re_search m (c # s) = (case m (c # s) of Some r \<Rightarrow> Some r | None \<Rightarrow> re_search m s)"






section \<open>Configuration and paths (config.py, os.path)\<close>

text \<open>
  The settings of \<open>config.py\<close> that the modelled code reads. The module is mutable (the
  settings menu writes it), so it is passed to every function that reads it.
\<close>

record config =
  ARHIVACH_DOMAIN :: string
  MAX_CONCURRENT_DOWNLOADS :: nat
  CONVERT_IMAGES_TO_JPG :: bool
  JPG_QUALITY :: nat
  DOWNLOAD_RETRIES :: nat

definition MEDIA_EXTENSIONS_images :: "string list" where
  "MEDIA_EXTENSIONS_images = [''.jpg'', ''.jpeg'', ''.png'', ''.gif'', ''.webp'', ''.bmp'']"

definition MEDIA_EXTENSIONS_videos :: "string list" where
  "MEDIA_EXTENSIONS_videos = [''.mp4'', ''.webm'', ''.mov'', ''.avi'']"

definition MEDIA_EXTENSIONS_other :: "string list" where
  "MEDIA_EXTENSIONS_other = [''.pdf'', ''.zip'', ''.rar'', ''.7z'']"

definition CONVERTIBLE_EXTENSIONS :: "string list" where
  "CONVERTIBLE_EXTENSIONS = [''.png'', ''.webp'', ''.bmp'']"

text \<open>\<open>s.rfind(c)\<close>: the index of the last \<open>c\<close> in \<open>s\<close>, or \<open>-1\<close>.\<close>

definition rfind :: "string \<Rightarrow> char \<Rightarrow> int" where
  "rfind s c = (if c \<in> set s
                then int (length s) - 1 - int (length (takeWhile (\<lambda>x. x \<noteq> c) (rev s)))
                else - 1)"

text \<open>
  \<open>os.path.splitext\<close> (POSIX): the extension starts at the last dot, provided that dot
  comes after the last slash and some character between the two is not a dot.
\<close>

definition splitext :: "string \<Rightarrow> string \<times> string" where
  "splitext p =
     (let sepIndex = rfind p CHR ''/'';
          dotIndex = rfind p CHR ''.''
      in if dotIndex > sepIndex
            \<and> list_ex (\<lambda>c. c \<noteq> CHR ''.'')
                 (take (nat (dotIndex - (sepIndex + 1))) (drop (nat (sepIndex + 1)) p))
         then (take (nat dotIndex) p, drop (nat dotIndex) p)
         else (p, []))"

text \<open>\<open>os.path.join(a, b)\<close> (POSIX) for two components.\<close>

definition path_join :: "string \<Rightarrow> string \<Rightarrow> string" where
  "path_join a b =
     (if startswith b ''/'' then b
      else if a = [] \<or> endswith a ''/'' then a @ b
      else a @ ''/'' @ b)"

section \<open>Image conversion (downloader.py)\<close>

text \<open>
  Pillow is outside the repository: its operations are parameters of the model, and each
  of them may raise. Only exceptions derived from \<open>Exception\<close> are values of \<open>exn\<close>;
  that is what the \<open>except Exception\<close> clauses of the code catch.
\<close>

record image =
  img_mode :: string
  img_size :: "nat \<times> nat"
  img_data :: "nat list"

record pil =
  pil_import :: "exn option"
  pil_open :: "bytes \<Rightarrow> exn + image"
  pil_new :: "string \<Rightarrow> nat \<times> nat \<Rightarrow> nat \<times> nat \<times> nat \<Rightarrow> exn + image"
  pil_convert :: "image \<Rightarrow> string \<Rightarrow> exn + image"
  pil_split :: "image \<Rightarrow> exn + image list"
  pil_paste :: "image \<Rightarrow> image \<Rightarrow> image option \<Rightarrow> exn + image"
  pil_save :: "image \<Rightarrow> string \<Rightarrow> nat \<Rightarrow> bool \<Rightarrow> exn + bytes"

text \<open>Sequencing of calls that may raise: the first exception ends the block.\<close>

definition and_then :: "exn + 'a \<Rightarrow> ('a \<Rightarrow> exn + 'b) \<Rightarrow> exn + 'b" where
  "and_then r f = (case r of Inl e \<Rightarrow> Inl e | Inr x \<Rightarrow> f x)"

text \<open>
  The part of the \<open>try\<close> block of \<open>convert_image_to_jpg\<close> that decodes the bytes and
  brings the image to mode RGB, on a white background where it has transparency.
\<close>

definition decode_to_rgb :: "pil \<Rightarrow> bytes \<Rightarrow> exn + image" where
  "decode_to_rgb P content =
     and_then (case pil_import P of Some e \<Rightarrow> Inl e | None \<Rightarrow> Inr ()) (\<lambda>_.
     and_then (pil_open P content) (\<lambda>img.
       if img_mode img \<in> {''RGBA'', ''LA'', ''P''} then
         and_then (pil_new P ''RGB'' (img_size img) (255, 255, 255)) (\<lambda>background.
         and_then (if img_mode img = ''P'' then pil_convert P img ''RGBA'' else Inr img) (\<lambda>img.
         and_then
           (if img_mode img = ''RGBA''
            then and_then (pil_split P img) (\<lambda>bands.
                   if bands = [] then Inl (Raised ''IndexError'') else Inr (Some (last bands)))
            else Inr None) (\<lambda>mask.
         pil_paste P background img mask)))
       else if img_mode img \<noteq> ''RGB'' then pil_convert P img ''RGB''
       else Inr img))"

text \<open>The whole \<open>try\<close> block: decode, then \<open>img.save(output, format='JPEG', ...)\<close>.\<close>

definition convert_image_to_jpg_try :: "pil \<Rightarrow> bytes \<Rightarrow> nat \<Rightarrow> exn + bytes" where
  "convert_image_to_jpg_try P content quality =
     and_then (decode_to_rgb P content) (\<lambda>img. pil_save P img ''JPEG'' quality True)"

text \<open>\<open>except Exception: return content\<close>\<close>

definition convert_image_to_jpg :: "pil \<Rightarrow> bytes \<Rightarrow> nat \<Rightarrow> exn + bytes" where
  "convert_image_to_jpg P content quality =
     (case convert_image_to_jpg_try P content quality of
        Inr output \<Rightarrow> Inr output
      | Inl e \<Rightarrow> Inr content)"

section \<open>The download engine (downloader.py)\<close>

record MediaFile =
  m_url :: string
  m_filename :: string
  m_file_type :: string

record DownloadStats =
  total :: nat
  completed :: nat
  failed :: nat
  skipped :: nat
  converted :: nat
  retried :: nat
  total_bytes :: nat

definition get_jpg_filename :: "string \<Rightarrow> string" where
  "get_jpg_filename filename =
     (let (base, ext) = splitext filename
      in if lower ext \<in> set CONVERTIBLE_EXTENSIONS then base @ ''.jpg'' else filename)"

definition should_convert :: "config \<Rightarrow> string \<Rightarrow> bool" where
  "should_convert cfg filename =
     (if \<not> CONVERT_IMAGES_TO_JPG cfg then False
      else lower (snd (splitext filename)) \<in> set CONVERTIBLE_EXTENSIONS)"

text \<open>
  \<open>exists\<close> is the set of paths for which \<open>os.path.exists\<close> answers \<open>True\<close> at the moment
  of the check.
\<close>

definition file_exists :: "config \<Rightarrow> string set \<Rightarrow> string \<Rightarrow> string \<Rightarrow> bool" where
  "file_exists cfg exists output_dir filename =
     (if path_join output_dir filename \<in> exists then True
      else if should_convert cfg filename
              \<and> path_join output_dir (get_jpg_filename filename) \<in> exists then True
      else (let (base, ext) = splitext filename
            in if lower ext \<in> set CONVERTIBLE_EXTENSIONS
                  \<and> path_join output_dir (base @ ''.jpg'') \<in> exists then True
               else False))"

text \<open>
  What the server does with one GET: a response with its status and the result of reading
  its body, or one of the exceptions the code names.
\<close>

datatype reply =
    Response nat "exn + bytes"
  | TimeoutError
  | ClientError string
  | OtherException string

text \<open>
  The observable state of a downloader: the statistics it keeps and the trace of its
  effects in the order they happen (a GET of a URL, a sleep of so many seconds, a file
  written).
\<close>

datatype event = Get string | Sleep nat | Write string bytes

record world =
  stats :: DownloadStats
  events :: "event list"

record MediaDownloader =
  max_concurrent :: nat
  max_retries :: nat

text \<open>
  \<open>max_concurrent or config.MAX_CONCURRENT_DOWNLOADS\<close>: an argument that is absent or zero
  gives way to the configured value. The retry count is a number of attempts (1 to 30 in
  the settings menu) and is modelled as a natural number.
\<close>

definition MediaDownloader_init :: "config \<Rightarrow> nat option \<Rightarrow> nat option \<Rightarrow> MediaDownloader" where
  "MediaDownloader_init cfg mc mr =
     \<lparr>max_concurrent = (case mc of Some n \<Rightarrow> if n \<noteq> 0 then n else MAX_CONCURRENT_DOWNLOADS cfg
                                  | None \<Rightarrow> MAX_CONCURRENT_DOWNLOADS cfg),
      max_retries = (case mr of Some n \<Rightarrow> if n \<noteq> 0 then n else DOWNLOAD_RETRIES cfg
                               | None \<Rightarrow> DOWNLOAD_RETRIES cfg)\<rparr>"

text \<open>
  One pass through the \<open>try\<close> statement of the retry loop either returns from the
  function or falls through to the backoff (the code keeps the error text in
  \<open>last_error\<close>, which nothing reads).
\<close>

datatype 'a pass = Return 'a | Fall_through

definition attempt_get :: "reply \<Rightarrow> bytes option pass" where
  "attempt_get r =
     (case r of
        Response status body \<Rightarrow>
          if status = 200 then (case body of Inr content \<Rightarrow> Return (Some content)
                                           | Inl e \<Rightarrow> Fall_through)
          else if status = 404 then Return None
          else Fall_through
      | TimeoutError \<Rightarrow> Fall_through
      | ClientError e \<Rightarrow> Fall_through
      | OtherException e \<Rightarrow> Fall_through)"

text \<open>\<open>if attempt < self.max_retries - 1: self.stats.retried += 1; sleep(1 * (attempt + 1))\<close>\<close>

definition backoff :: "nat \<Rightarrow> nat \<Rightarrow> world \<Rightarrow> world" where
  "backoff maxr attempt w =
     (if int attempt < int maxr - 1
      then w\<lparr>stats := (stats w)\<lparr>retried := retried (stats w) + 1\<rparr>,
             events := events w @ [Sleep (1 * (attempt + 1))]\<rparr>
      else w)"

fun download_attempts ::
  "nat \<Rightarrow> (nat \<Rightarrow> reply) \<Rightarrow> string \<Rightarrow> nat list \<Rightarrow> world \<Rightarrow> bytes option \<times> world" where
  "download_attempts maxr replies url [] w = (None, w)"
| "download_attempts maxr replies url (attempt # rest) w =
     (let w1 = w\<lparr>events := events w @ [Get url]\<rparr>
      in case attempt_get (replies attempt) of
           Return r \<Rightarrow> (r, w1)
         | Fall_through \<Rightarrow> download_attempts maxr replies url rest (backoff maxr attempt w1))"

text \<open>\<open>for attempt in range(self.max_retries)\<close>; \<open>replies i\<close> answers the GET of attempt \<open>i\<close>.\<close>

definition download_with_retry ::
  "MediaDownloader \<Rightarrow> (nat \<Rightarrow> reply) \<Rightarrow> string \<Rightarrow> world \<Rightarrow> bytes option \<times> world" where
  "download_with_retry self replies url w =
     download_attempts (max_retries self) replies url [0..<max_retries self] w"

text \<open>
  What one task of the batch meets: the paths that exist when it checks, the server's
  answers to its requests, Pillow, and whether opening and writing its file succeeds.
\<close>

record task_env =
  dir_seen :: "string set"
  replies_to :: "nat \<Rightarrow> reply"
  pillow :: pil
  write_ok :: "string \<Rightarrow> bytes \<Rightarrow> bool"

definition bump_skipped :: "world \<Rightarrow> world" where
  "bump_skipped w = w\<lparr>stats := (stats w)\<lparr>skipped := skipped (stats w) + 1\<rparr>\<rparr>"

definition bump_failed :: "world \<Rightarrow> world" where
  "bump_failed w = w\<lparr>stats := (stats w)\<lparr>failed := failed (stats w) + 1\<rparr>\<rparr>"

definition bump_converted :: "world \<Rightarrow> world" where
  "bump_converted w = w\<lparr>stats := (stats w)\<lparr>converted := converted (stats w) + 1\<rparr>\<rparr>"

definition bump_completed :: "string \<Rightarrow> bytes \<Rightarrow> world \<Rightarrow> world" where
  "bump_completed filepath content w =
     w\<lparr>stats := (stats w)\<lparr>completed := completed (stats w) + 1,
                            total_bytes := total_bytes (stats w) + length content\<rparr>,
       events := events w @ [Write filepath content]\<rparr>"

definition download_file ::
  "config \<Rightarrow> MediaDownloader \<Rightarrow> task_env \<Rightarrow> MediaFile \<Rightarrow> string \<Rightarrow> world \<Rightarrow> bool \<times> world" where
  "download_file cfg self env media output_dir w =
     (if file_exists cfg (dir_seen env) output_dir (m_filename media)
      then (True, bump_skipped w)
      else
        let final_filename = (if should_convert cfg (m_filename media)
                              then get_jpg_filename (m_filename media)
                              else m_filename media);
            filepath = path_join output_dir final_filename;
            (content, w1) = download_with_retry self (replies_to env) (m_url media) w
        in case content of
             None \<Rightarrow> (False, bump_failed w1)
           | Some content \<Rightarrow>
               (let (converted_content, w2) =
                      (if should_convert cfg (m_filename media)
                       then (case convert_image_to_jpg (pillow env) content (JPG_QUALITY cfg) of
                               Inr c \<Rightarrow> (Inr c, bump_converted w1)
                             | Inl e \<Rightarrow> (Inl e, w1))
                       else (Inr content, w1))
                in case converted_content of
                     Inl e \<Rightarrow> (False, bump_failed w2)
                   | Inr content \<Rightarrow>
                       if write_ok env filepath content
                       then (True, bump_completed filepath content w2)
                       else (False, bump_failed w2)))"

text \<open>
  \<open>asyncio.gather\<close> runs one task per asset. The tasks share \<open>self.stats\<close> only through
  increments, which no \<open>await\<close> interrupts, so the statistics do not depend on the
  interleaving; the model runs the tasks in list order, task \<open>i\<close> in the environment
  \<open>env i\<close>. What each task finds on disk at its check depends on the scheduler and is
  part of that environment. The semaphore only bounds how many requests are in flight
  and does not appear.
\<close>

fun run_tasks ::
  "config \<Rightarrow> MediaDownloader \<Rightarrow> (nat \<Rightarrow> task_env) \<Rightarrow> nat \<Rightarrow> MediaFile list \<Rightarrow> string
     \<Rightarrow> world \<Rightarrow> world" where
  "run_tasks cfg self env i [] output_dir w = w"
| "run_tasks cfg self env i (media # rest) output_dir w =
     run_tasks cfg self env (Suc i) rest output_dir
       (snd (download_file cfg self (env i) media output_dir w))"

definition new_batch :: "MediaFile list \<Rightarrow> world" where
  "new_batch media_files =
     \<lparr>stats = \<lparr>total = length media_files, completed = 0, failed = 0, skipped = 0,
               converted = 0, retried = 0, total_bytes = 0\<rparr>,
      events = []\<rparr>"

definition batch_world ::
  "config \<Rightarrow> MediaDownloader \<Rightarrow> (nat \<Rightarrow> task_env) \<Rightarrow> MediaFile list \<Rightarrow> string \<Rightarrow> world" where
  "batch_world cfg self env media_files output_dir =
     run_tasks cfg self env 0 media_files output_dir (new_batch media_files)"

definition download_media_files ::
  "config \<Rightarrow> MediaDownloader \<Rightarrow> (nat \<Rightarrow> task_env) \<Rightarrow> MediaFile list \<Rightarrow> string
     \<Rightarrow> DownloadStats" where
  "download_media_files cfg self env media_files output_dir =
     stats (batch_world cfg self env media_files output_dir)"

definition download_media_sync ::
  "config \<Rightarrow> (nat \<Rightarrow> task_env) \<Rightarrow> MediaFile list \<Rightarrow> string \<Rightarrow> nat option \<Rightarrow> DownloadStats" where
  "download_media_sync cfg env media_files output_dir mc =
     download_media_files cfg (MediaDownloader_init cfg mc None) env media_files output_dir"

section \<open>The thread page (parser.py)\<close>

text \<open>
  \<open>urllib.parse\<close> and \<open>hashlib\<close> are outside the repository and are parameters of the
  model: \<open>urlparse_path url\<close> is \<open>urlparse(url).path\<close> and \<open>md5_hexdigest url\<close> is
  \<open>hashlib.md5(url.encode()).hexdigest()\<close>.
\<close>

record stdlib =
  urlparse_path :: "string \<Rightarrow> string"
  urljoin :: "string \<Rightarrow> string \<Rightarrow> string"
  md5_hexdigest :: "string \<Rightarrow> string"

definition get_html_filename :: "config \<Rightarrow> string \<Rightarrow> string" where
  "get_html_filename cfg filename =
     (if \<not> CONVERT_IMAGES_TO_JPG cfg then filename
      else (let (base, ext) = splitext filename
            in if lower ext \<in> set CONVERTIBLE_EXTENSIONS then base @ ''.jpg'' else filename))"

definition normalize_url :: "stdlib \<Rightarrow> string \<Rightarrow> string \<Rightarrow> string" where
  "normalize_url lib domain url =
     (if startswith url ''//'' then ''https:'' @ url
      else if startswith url ''/'' then urljoin lib domain url
      else if \<not> startswith url ''http'' then urljoin lib domain url
      else url)"

text \<open>\<open>path.split('/')[-1]\<close> is what follows the last slash, \<open>split('?')[0]\<close> what precedes
  the first question mark.\<close>

definition extract_filename :: "stdlib \<Rightarrow> string \<Rightarrow> string" where
  "extract_filename lib url =
     (let path = urlparse_path lib url;
          filename = rev (takeWhile (\<lambda>c. c \<noteq> CHR ''/'') (rev path));
          filename = takeWhile (\<lambda>c. c \<noteq> CHR ''?'') filename
      in if filename = [] \<or> length filename < 3 then take 16 (md5_hexdigest lib url)
         else filename)"

definition get_file_type :: "string \<Rightarrow> string option" where
  "get_file_type filename =
     (let filename_lower = lower filename
      in if list_ex (endswith filename_lower) MEDIA_EXTENSIONS_images then Some ''image''
         else if list_ex (endswith filename_lower) MEDIA_EXTENSIONS_videos then Some ''video''
         else if list_ex (endswith filename_lower) MEDIA_EXTENSIONS_other then Some ''other''
         else None)"

text \<open>
  The elements the media pass reads: an \<open><a href>\<close> with its text, an \<open><img>\<close> with its
  \<open>src\<close> and \<open>data-src\<close> attributes (\<open>None\<close> when the attribute is absent).
\<close>

record anchor =
  a_href :: string
  a_text :: string

record img =
  i_src :: "string option"
  i_data_src :: "string option"

record page_state =
  media_files :: "MediaFile list"
  original_filenames :: "string set"

text \<open>The body of the loop over \<open>soup.find_all('a', href=True)\<close>.\<close>

definition anchor_step ::
  "stdlib \<Rightarrow> config \<Rightarrow> string \<Rightarrow> anchor \<Rightarrow> page_state \<Rightarrow> anchor \<times> page_state" where
  "anchor_step lib cfg domain link st =
     (let href = a_href link
      in if contains href ''/storage/'' \<and> \<not> contains href ''/storage/t/'' then
           (let full_url = (if startswith href ''http'' then href
                            else normalize_url lib domain href);
                filename = extract_filename lib full_url
            in case get_file_type filename of
                 None \<Rightarrow> (link, st)
               | Some file_type \<Rightarrow>
                   (let st1 = (if \<not> list_ex (\<lambda>m. m_url m = full_url) (media_files st)
                               then st\<lparr>media_files := media_files st @
                                      [\<lparr>m_url = full_url, m_filename = filename,
                                        m_file_type = file_type\<rparr>]\<rparr>
                               else st);
                        st2 = st1\<lparr>original_filenames :=
                                    insert filename (original_filenames st1)\<rparr>;
                        html_filename = (if file_type = ''image''
                                         then get_html_filename cfg filename else filename)
                    in (link\<lparr>a_href := ''media/'' @ html_filename\<rparr>, st2)))
         else (link, st))"

fun anchors_loop ::
  "stdlib \<Rightarrow> config \<Rightarrow> string \<Rightarrow> anchor list \<Rightarrow> page_state \<Rightarrow> anchor list \<times> page_state" where
  "anchors_loop lib cfg domain [] st = ([], st)"
| "anchors_loop lib cfg domain (link # links) st =
     (let (link1, st1) = anchor_step lib cfg domain link st;
          (links1, st2) = anchors_loop lib cfg domain links st1
      in (link1 # links1, st2))"

text \<open>\<open>s.rsplit('.', 1)[0]\<close>: what precedes the last dot, or all of \<open>s\<close> without a dot.\<close>

definition rsplit_dot_head :: "string \<Rightarrow> string" where
  "rsplit_dot_head s =
     (if CHR ''.'' \<in> set s then rev (tl (dropWhile (\<lambda>c. c \<noteq> CHR ''.'') (rev s))) else s)"

definition video_hash_to_filename_of :: "MediaFile list \<Rightarrow> (string \<rightharpoonup> string)" where
  "video_hash_to_filename_of ms =
     foldl (\<lambda>d media. if m_file_type media = ''video''
                       then d(rsplit_dot_head (m_filename media) \<mapsto> m_filename media)
                       else d) Map.empty ms"

text \<open>
  \<open>s.replace(old, new)\<close> for a non-empty \<open>old\<close>: occurrences are replaced from the left
  and do not overlap; the counter is the number of characters of a replaced occurrence
  still to be skipped.
\<close>

fun replace_from :: "nat \<Rightarrow> string \<Rightarrow> string \<Rightarrow> string \<Rightarrow> string" where
  "replace_from k [] old new = []"
| "replace_from (Suc k) (c # s) old new = replace_from k s old new"
| "replace_from 0 (c # s) old new =
     (if startswith (c # s) old then new @ replace_from (length old - 1) s old new
      else c # replace_from 0 s old new)"

definition replace :: "string \<Rightarrow> string \<Rightarrow> string \<Rightarrow> string" where
  "replace s old new = replace_from 0 s old new"

text \<open>An attribute counts (\<open>if img.get('src')\<close>) when it is present and not empty.\<close>

definition truthy :: "string option \<Rightarrow> bool" where
  "truthy v = (case v of Some s \<Rightarrow> s \<noteq> [] | None \<Rightarrow> False)"

definition set_sources :: "img \<Rightarrow> string \<Rightarrow> img" where
  "set_sources im v =
     im\<lparr>i_src := (if truthy (i_src im) then Some v else i_src im),
        i_data_src := (if truthy (i_data_src im) then Some v else i_data_src im)\<rparr>"

text \<open>\<open>img.get('src', '') or img.get('data-src', '')\<close>\<close>

definition img_source :: "img \<Rightarrow> string" where
  "img_source im =
     (if truthy (i_src im) then the (i_src im)
      else (case i_data_src im of Some s \<Rightarrow> s | None \<Rightarrow> []))"

definition chrome_markers :: "string list" where
  "chrome_markers = [''favicon'', ''logo'', ''icon'', ''avatar'', ''button'']"

text \<open>The body of the loop over \<open>soup.find_all('img')\<close>.\<close>

definition img_step ::
  "stdlib \<Rightarrow> config \<Rightarrow> string \<Rightarrow> (string \<rightharpoonup> string) \<Rightarrow> img \<Rightarrow> page_state
     \<Rightarrow> img \<times> page_state" where
  "img_step lib cfg domain video_hash_to_filename im st =
     (let src = img_source im
      in if src \<noteq> [] \<and> contains src ''/storage/'' then
           if list_ex (\<lambda>x. contains src x) chrome_markers then (im, st)
           else
             (let filename = extract_filename lib src
              in if contains src ''/storage/t/'' then
                   (let hash_name = replace filename ''.thumb'' []
                    in if endswith filename ''.thumb''
                          \<and> video_hash_to_filename hash_name \<noteq> None then
                         (let full_url = normalize_url lib domain src;
                              thumb_filename = hash_name @ ''_thumb.jpg'';
                              st1 = (if \<not> list_ex (\<lambda>m. m_filename m = thumb_filename)
                                            (media_files st)
                                     then st\<lparr>media_files := media_files st @
                                            [\<lparr>m_url = full_url, m_filename = thumb_filename,
                                              m_file_type = ''image''\<rparr>]\<rparr>
                                     else st)
                          in (set_sources im (''media/'' @ thumb_filename), st1))
                       else if filename \<in> original_filenames st then
                         (set_sources im (''media/'' @ get_html_filename cfg filename), st)
                       else (im, st))
                 else
                   (let full_url = normalize_url lib domain src;
                        file_type = get_file_type filename;
                        st1 = (if file_type \<noteq> None
                                  \<and> \<not> list_ex (\<lambda>m. m_url m = full_url) (media_files st)
                               then st\<lparr>media_files := media_files st @
                                      [\<lparr>m_url = full_url, m_filename = filename,
                                        m_file_type = the file_type\<rparr>],
                                      original_filenames :=
                                        insert filename (original_filenames st)\<rparr>
                               else st)
                    in (set_sources im (''media/'' @ get_html_filename cfg filename), st1)))
         else (im, st))"

fun imgs_loop ::
  "stdlib \<Rightarrow> config \<Rightarrow> string \<Rightarrow> (string \<rightharpoonup> string) \<Rightarrow> img list \<Rightarrow> page_state
     \<Rightarrow> img list \<times> page_state" where
  "imgs_loop lib cfg domain vh [] st = ([], st)"
| "imgs_loop lib cfg domain vh (im # ims) st =
     (let (im1, st1) = img_step lib cfg domain vh im st;
          (ims1, st2) = imgs_loop lib cfg domain vh ims st1
      in (im1 # ims1, st2))"

text \<open>
  The media pass of \<open>parse_thread\<close> over anchors and images: the originals behind the
  anchors first, then the table of video hashes, then the images. The later passes
  (\<open><video>\<close> elements, inline player calls, clean-up and serialisation) add video assets
  only and leave the \<open><img>\<close> attributes alone; they are not modelled.
\<close>

definition parse_thread_media ::
  "stdlib \<Rightarrow> config \<Rightarrow> string \<Rightarrow> anchor list \<Rightarrow> img list
     \<Rightarrow> anchor list \<times> img list \<times> MediaFile list" where
  "parse_thread_media lib cfg domain links ims =
     (let (links1, st1) = anchors_loop lib cfg domain links
                            \<lparr>media_files = [], original_filenames = {}\<rparr>;
          video_hash_to_filename = video_hash_to_filename_of (media_files st1);
          (ims1, st2) = imgs_loop lib cfg domain video_hash_to_filename ims st1
      in (links1, ims1, media_files st2))"

section \<open>The tag listing (parser.py)\<close>



text \<open>
  The pattern \<open>/index/(\d+)/\?\<close> anchored at the start of \<open>s\<close>. The digits are matched
  greedily; giving one back would leave a digit where the slash has to be, so the pattern
  matches exactly when the longest run of digits is followed by \<open>/?\<close>.
\<close>

definition match_index_offset :: "string \<Rightarrow> string option" where
  "match_index_offset s =
     (let digits = takeWhile is_decimal (drop 7 s)
      in if startswith s ''/index/'' \<and> digits \<noteq> []
            \<and> startswith (drop (7 + length digits) s) ''/?''
         then Some digits else None)"






text \<open>The body of the loop over \<open>all_links\<close>: the new value of \<open>total_pages\<close>.\<close>

definition link_pages :: "int \<Rightarrow> anchor \<Rightarrow> int \<Rightarrow> exn + int" where
  "link_pages tag_id link total_pages =
     (let href = a_href link
      in if contains href (''tags='' @ str_int tag_id) then
           and_then
             (case re_search match_index_offset href of
                Some g \<Rightarrow>
                  and_then (py_int g) (\<lambda>page_offset.
                    let page_num = (page_offset div 25) + 1
                    in Inr (max total_pages page_num))
              | None \<Rightarrow> Inr total_pages) (\<lambda>total_pages.
           let link_text = a_text link
           in if isdigit link_text
              then and_then (py_int link_text) (\<lambda>n. Inr (max total_pages n))
              else Inr total_pages)
         else Inr total_pages)"






section \<open>A plain instance of the library\<close>

text \<open>
  A stand-in for \<open>urllib.parse\<close> that agrees with it on URLs of the shape
  \<open>[scheme:][//host]path[;params][?query][#fragment]\<close> and, for \<open>urljoin\<close>, on a base
  without a path. The digest is a placeholder. The theorems below hold for every
  library; this instance serves to run the model on concrete pages.
\<close>

definition is_scheme_char :: "char \<Rightarrow> bool" where
  "is_scheme_char c =
     (let n = (of_char c :: nat)
      in (97 \<le> n \<and> n \<le> 122) \<or> (65 \<le> n \<and> n \<le> 90) \<or> (48 \<le> n \<and> n \<le> 57)
         \<or> c \<in> {CHR ''+'', CHR ''-'', CHR ''.''})"

definition is_ascii_letter :: "char \<Rightarrow> bool" where
  "is_ascii_letter c =
     (let n = (of_char c :: nat) in (97 \<le> n \<and> n \<le> 122) \<or> (65 \<le> n \<and> n \<le> 90))"

definition split_scheme :: "string \<Rightarrow> string \<times> string" where
  "split_scheme url =
     (let s = takeWhile (\<lambda>c. c \<noteq> CHR '':'') url
      in if length s < length url \<and> s \<noteq> [] \<and> is_ascii_letter (hd s)
            \<and> list_all is_scheme_char s
         then (s, drop (length s + 1) url) else ([], url))"

definition split_netloc :: "string \<Rightarrow> string \<times> string" where
  "split_netloc url =
     (if startswith url ''//''
      then (let host = takeWhile (\<lambda>c. c \<notin> {CHR ''/'', CHR ''?'', CHR ''#''}) (drop 2 url)
            in (host, drop (2 + length host) url))
      else ([], url))"

definition plain_urlparse_path :: "string \<Rightarrow> string" where
  "plain_urlparse_path url =
     (let rest = snd (split_netloc (snd (split_scheme url)));
          rest = takeWhile (\<lambda>c. c \<noteq> CHR ''#'') rest;
          rest = takeWhile (\<lambda>c. c \<noteq> CHR ''?'') rest;
          last_segment = rev (takeWhile (\<lambda>c. c \<noteq> CHR ''/'') (rev rest))
      in take (length rest - length last_segment) rest
           @ takeWhile (\<lambda>c. c \<noteq> CHR '';'') last_segment)"

definition plain_urljoin :: "string \<Rightarrow> string \<Rightarrow> string" where
  "plain_urljoin base url =
     (let (scheme, rest) = split_scheme base;
          host = fst (split_netloc rest)
      in scheme @ ''://'' @ host @ (if startswith url ''/'' then url else ''/'' @ url))"

definition plain_lib :: stdlib where
  "plain_lib = \<lparr>urlparse_path = plain_urlparse_path, urljoin = plain_urljoin,
                md5_hexdigest = (\<lambda>url. replicate 32 CHR ''0'')\<rparr>"

definition default_config :: config where
  "default_config = \<lparr>ARHIVACH_DOMAIN = ''https://arhivach.vc'', MAX_CONCURRENT_DOWNLOADS = 5,
                     CONVERT_IMAGES_TO_JPG = True, JPG_QUALITY = 85, DOWNLOAD_RETRIES = 5\<rparr>"

section \<open>Concrete environments\<close>

text \<open>
  A Pillow in which every image decodes to an RGB image and encodes to a two-byte
  stream, one in which nothing decodes, and a task environment around each.
\<close>

definition working_pil :: pil where
  "working_pil =
     \<lparr>pil_import = None,
      pil_open = (\<lambda>content. Inr \<lparr>img_mode = ''RGB'', img_size = (1, 1), img_data = []\<rparr>),
      pil_new = (\<lambda>mode sz colour. Inr \<lparr>img_mode = mode, img_size = sz, img_data = []\<rparr>),
      pil_convert = (\<lambda>im mode. Inr (im\<lparr>img_mode := mode\<rparr>)),
      pil_split = (\<lambda>im. Inr [im]),
      pil_paste = (\<lambda>background im mask. Inr background),
      pil_save = (\<lambda>im format quality optimize. Inr [0xFF, 0xD8])\<rparr>"

definition broken_pil :: pil where
  "broken_pil = working_pil\<lparr>pil_open := (\<lambda>content. Inl (Raised ''UnidentifiedImageError''))\<rparr>"

definition task_with :: "string set \<Rightarrow> (nat \<Rightarrow> reply) \<Rightarrow> task_env" where
  "task_with seen answers =
     \<lparr>dir_seen = seen, replies_to = answers, pillow = working_pil,
      write_ok = (\<lambda>filepath content. True)\<rparr>"


section \<open>Notions used by the statements\<close>

text \<open>
  A transient failure of one attempt: a status other than 200 and 404, one of the
  exceptions, or a body that cannot be read.
\<close>

definition transient_failure :: "reply \<Rightarrow> bool" where
  "transient_failure r =
     (case r of
        Response status body \<Rightarrow> (status \<noteq> 200 \<and> status \<noteq> 404) \<or> (status = 200 \<and> isl body)
      | TimeoutError \<Rightarrow> True
      | ClientError e \<Rightarrow> True
      | OtherException e \<Rightarrow> True)"

text \<open>The requests and the sleeps of a trace, each in order.\<close>

fun requests_of :: "event list \<Rightarrow> string list" where
  "requests_of [] = []"
| "requests_of (Get url # es) = url # requests_of es"
| "requests_of (e # es) = requests_of es"

fun sleeps_of :: "event list \<Rightarrow> nat list" where
  "sleeps_of [] = []"
| "sleeps_of (Sleep d # es) = d # sleeps_of es"
| "sleeps_of (e # es) = sleeps_of es"

text \<open>
  The trace of \<open>n\<close> failed attempts on \<open>url\<close> with linear backoff: attempt number
  \<open>attemptIndex\<close>, counted from 1, is a GET and, unless it is the last one, is followed
  by a sleep of \<open>attemptIndex\<close> times the base delay of one second.
\<close>

definition retry_trace :: "string \<Rightarrow> nat \<Rightarrow> event list" where
  "retry_trace url n =
     concat (map (\<lambda>attemptIndex.
                    Get url # (if attemptIndex < n then [Sleep (attemptIndex * 1)] else []))
               [1..<Suc n])"












text \<open>
  The state the anchor pass builds: the original filenames are exactly the filenames of
  the collected assets, and each asset has the filename of its URL and a known type.
\<close>

definition originals_collected :: "stdlib \<Rightarrow> page_state \<Rightarrow> bool" where
  "originals_collected lib st =
     (original_filenames st = m_filename ` set (media_files st)
      \<and> list_all (\<lambda>m. m_filename m = extract_filename lib (m_url m)
                       \<and> get_file_type (m_filename m) \<noteq> None) (media_files st))"

text \<open>Adding the counters of two statistics, field by field.\<close>

definition add_stats :: "DownloadStats \<Rightarrow> DownloadStats \<Rightarrow> DownloadStats" where
  "add_stats a b =
     \<lparr>total = total a + total b, completed = completed a + completed b,
      failed = failed a + failed b, skipped = skipped a + skipped b,
      converted = converted a + converted b, retried = retried a + retried b,
      total_bytes = total_bytes a + total_bytes b\<rparr>"

definition advance :: "DownloadStats \<Rightarrow> event list \<Rightarrow> world \<Rightarrow> world" where
  "advance d es w = w\<lparr>stats := add_stats (stats w) d, events := events w @ es\<rparr>"

definition zero_stats :: DownloadStats where
  "zero_stats = \<lparr>total = 0, completed = 0, failed = 0, skipped = 0, converted = 0,
                  retried = 0, total_bytes = 0\<rparr>"

section \<open>Skipping what is already on disk\<close>

lemma splitext_join: "fst (splitext p) @ snd (splitext p) = p"
  by (simp add: splitext_def Let_def)

lemma get_jpg_filename_cases:
  "get_jpg_filename filename =
     (if lower (snd (splitext filename)) \<in> set CONVERTIBLE_EXTENSIONS
      then fst (splitext filename) @ ''.jpg'' else filename)"
  by (simp add: get_jpg_filename_def case_prod_unfold)

text \<open>
  The three checks of \<open>file_exists\<close> amount to two: the file exists under the name of
  the asset or under its \<open>.jpg\<close> name, whatever the conversion setting.
\<close>

lemma file_exists_iff:
  "file_exists cfg ex output_dir filename \<longleftrightarrow>
     path_join output_dir filename \<in> ex
     \<or> path_join output_dir (get_jpg_filename filename) \<in> ex"
  by (auto simp: file_exists_def get_jpg_filename_cases should_convert_def case_prod_unfold)

lemma download_file_skip:
  "file_exists cfg (dir_seen env) output_dir (m_filename media) \<Longrightarrow>
     download_file cfg self env media output_dir w = (True, bump_skipped w)"
  by (simp add: download_file_def)

lemma run_tasks_append:
  "run_tasks cfg self env i (xs @ ys) output_dir w =
     run_tasks cfg self env (i + length xs) ys output_dir
       (run_tasks cfg self env i xs output_dir w)"
  by (induction xs arbitrary: i w) simp_all

lemma batch_world_split:
  "batch_world cfg self env (before @ media # rest) output_dir =
     run_tasks cfg self env (Suc (length before)) rest output_dir
       (snd (download_file cfg self (env (length before)) media output_dir
          (run_tasks cfg self env 0 before output_dir (new_batch (before @ media # rest)))))"
  by (simp add: batch_world_def run_tasks_append)

text \<open>
  Claim C1. Take any asset of a batch, at any position (after the assets \<open>before\<close>, ahead
  of the assets \<open>rest\<close>). If, when its task checks, the output directory holds a file
  under the asset's own filename or under its JPG-converted filename, then the task
  returns \<open>True\<close> and changes nothing but the \<open>skipped\<close> counter, which grows by one: the
  trace of effects is the same before and after, so no request is sent for the asset.
  In the batch, the state handed to the remaining tasks is the state the earlier tasks
  left, with \<open>skipped\<close> increased by one.
\<close>

theorem present_asset_is_skipped:
  assumes "path_join output_dir (m_filename media) \<in> dir_seen (env (length before))
           \<or> path_join output_dir (get_jpg_filename (m_filename media))
                \<in> dir_seen (env (length before))"
  shows "download_file cfg self (env (length before)) media output_dir w = (True, bump_skipped w)
         \<and> events (bump_skipped w) = events w
         \<and> skipped (stats (bump_skipped w)) = skipped (stats w) + 1
         \<and> batch_world cfg self env (before @ media # rest) output_dir =
             run_tasks cfg self env (Suc (length before)) rest output_dir
               (bump_skipped (run_tasks cfg self env 0 before output_dir
                  (new_batch (before @ media # rest))))"
proof -
  from assms
  have ex: "file_exists cfg (dir_seen (env (length before))) output_dir (m_filename media)"
    by (simp add: file_exists_iff)
  have step: "\<And>w. download_file cfg self (env (length before)) media output_dir w
                 = (True, bump_skipped w)"
    using ex by (rule download_file_skip)
  show ?thesis
    by (simp add: step batch_world_split bump_skipped_def)
qed

text \<open>
  An instance: \<open>ab12.png\<close> was converted on an earlier run, so \<open>out/media/ab12.jpg\<close>
  exists; the task skips the asset although every request would time out.
\<close>

theorem present_asset_is_skipped_witness:
  "path_join ''out/media'' (get_jpg_filename ''ab12.png'') \<in> {''out/media/ab12.jpg''}
   \<and> download_file default_config \<lparr>max_concurrent = 5, max_retries = 5\<rparr>
        (task_with {''out/media/ab12.jpg''} (\<lambda>i. TimeoutError))
        \<lparr>m_url = ''https://arhivach.vc/storage/a/bb/ab12.png'', m_filename = ''ab12.png'',
          m_file_type = ''image''\<rparr> ''out/media'' (new_batch [])
      = (True, bump_skipped (new_batch []))"
  using present_asset_is_skipped [where output_dir = "''out/media''"
      and media = "\<lparr>m_url = ''https://arhivach.vc/storage/a/bb/ab12.png'',
                     m_filename = ''ab12.png'', m_file_type = ''image''\<rparr>"
      and env = "\<lambda>i. task_with {''out/media/ab12.jpg''} (\<lambda>i. TimeoutError)"
      and before = "[]" and cfg = default_config
      and self = "\<lparr>max_concurrent = 5, max_retries = 5\<rparr>" and w = "new_batch []"
      and rest = "[]"]
  by (simp add: task_with_def path_join_def endswith_def get_jpg_filename_def splitext_def
      rfind_def lower_def lower_char_def CONVERTIBLE_EXTENSIONS_def)

text \<open>
  Claim C10. Let the filename of an asset split into \<open>base\<close> and an extension that is
  \<open>.png\<close>, \<open>.webp\<close> or \<open>.bmp\<close> in any letter case. If \<open>base.jpg\<close> exists in the output
  directory when the task checks, the existence check answers that the asset is present,
  whatever the conversion setting. In particular with conversion disabled the task counts
  the asset as skipped, sends no request and writes no file.
\<close>

theorem converted_name_counts_as_present:
  assumes "splitext (m_filename media) = (base, ext)"
      and "lower ext \<in> set CONVERTIBLE_EXTENSIONS"
      and "path_join output_dir (base @ ''.jpg'') \<in> dir_seen env"
  shows "file_exists cfg (dir_seen env) output_dir (m_filename media)
         \<and> (\<not> CONVERT_IMAGES_TO_JPG cfg \<longrightarrow>
              download_file cfg self env media output_dir w = (True, bump_skipped w)
              \<and> skipped (stats (bump_skipped w)) = skipped (stats w) + 1
              \<and> events (bump_skipped w) = events w)"
proof -
  have ex: "file_exists cfg (dir_seen env) output_dir (m_filename media)"
    using assms by (simp add: file_exists_def)
  from download_file_skip [OF ex] show ?thesis
    using ex by (simp add: bump_skipped_def)
qed

text \<open>
  An instance with conversion switched off: \<open>ab12.PNG\<close> is skipped because
  \<open>ab12.jpg\<close> exists, although the server would deliver the original.
\<close>

theorem converted_name_counts_as_present_witness:
  "splitext ''ab12.PNG'' = (''ab12'', ''.PNG'')
   \<and> lower ''.PNG'' \<in> set CONVERTIBLE_EXTENSIONS
   \<and> path_join ''out/media'' (''ab12'' @ ''.jpg'') \<in> {''out/media/ab12.jpg''}
   \<and> \<not> CONVERT_IMAGES_TO_JPG (default_config\<lparr>CONVERT_IMAGES_TO_JPG := False\<rparr>)
   \<and> download_file (default_config\<lparr>CONVERT_IMAGES_TO_JPG := False\<rparr>)
        \<lparr>max_concurrent = 5, max_retries = 5\<rparr>
        (task_with {''out/media/ab12.jpg''} (\<lambda>i. Response 200 (Inr [1, 2, 3])))
        \<lparr>m_url = ''https://arhivach.vc/storage/a/bb/ab12.PNG'', m_filename = ''ab12.PNG'',
          m_file_type = ''image''\<rparr> ''out/media'' (new_batch [])
      = (True, bump_skipped (new_batch []))"
proof -
  have h1: "splitext (m_filename \<lparr>m_url = ''https://arhivach.vc/storage/a/bb/ab12.PNG'',
              m_filename = ''ab12.PNG'', m_file_type = ''image''\<rparr>) = (''ab12'', ''.PNG'')"
    by (simp add: splitext_def rfind_def)
  have h2: "lower ''.PNG'' \<in> set CONVERTIBLE_EXTENSIONS"
    by (simp add: lower_def lower_char_def CONVERTIBLE_EXTENSIONS_def)
  have h3: "path_join ''out/media'' (''ab12'' @ ''.jpg'')
              \<in> dir_seen (task_with {''out/media/ab12.jpg''} (\<lambda>i. Response 200 (Inr [1, 2, 3])))"
    by (simp add: path_join_def endswith_def task_with_def)
  have h4: "\<not> CONVERT_IMAGES_TO_JPG (default_config\<lparr>CONVERT_IMAGES_TO_JPG := False\<rparr>)"
    by simp
  from converted_name_counts_as_present [OF h1 h2 h3,
      where cfg = "default_config\<lparr>CONVERT_IMAGES_TO_JPG := False\<rparr>"
        and self = "\<lparr>max_concurrent = 5, max_retries = 5\<rparr>" and w = "new_batch []"]
  show ?thesis using h1 h2 h3 h4 by (simp add: task_with_def)
qed

section \<open>Every asset ends in one counter\<close>

lemma download_attempts_counts:
  "download_attempts maxr replies url atts w = (r, w') \<Longrightarrow>
     completed (stats w') = completed (stats w) \<and> failed (stats w') = failed (stats w)
     \<and> skipped (stats w') = skipped (stats w) \<and> total (stats w') = total (stats w)
     \<and> converted (stats w') = converted (stats w)
     \<and> total_bytes (stats w') = total_bytes (stats w)"
proof (induction atts arbitrary: w)
  case Nil
  then show ?case by simp
next
  case (Cons a atts)
  show ?case
  proof (cases "attempt_get (replies a)")
    case (Return x)
    with Cons.prems show ?thesis by auto
  next
    case Fall_through
    with Cons.prems have
      "download_attempts maxr replies url atts
         (backoff maxr a (w\<lparr>events := events w @ [Get url]\<rparr>)) = (r, w')"
      by simp
    from Cons.IH [OF this] show ?thesis by (simp add: backoff_def)
  qed
qed

lemma download_file_outcome:
  assumes "download_file cfg self env media output_dir w = (ok, w')"
  shows "total (stats w') = total (stats w)
         \<and> ((completed (stats w') = completed (stats w) + 1 \<and> failed (stats w') = failed (stats w)
               \<and> skipped (stats w') = skipped (stats w) \<and> ok)
            \<or> (completed (stats w') = completed (stats w) \<and> failed (stats w') = failed (stats w) + 1
               \<and> skipped (stats w') = skipped (stats w) \<and> \<not> ok)
            \<or> (completed (stats w') = completed (stats w) \<and> failed (stats w') = failed (stats w)
               \<and> skipped (stats w') = skipped (stats w) + 1 \<and> ok))"
proof (cases "file_exists cfg (dir_seen env) output_dir (m_filename media)")
  case True
  with assms show ?thesis by (auto simp: download_file_def bump_skipped_def)
next
  case False
  obtain content w1 where dl: "download_with_retry self (replies_to env) (m_url media) w = (content, w1)"
    by (cases "download_with_retry self (replies_to env) (m_url media) w")
  from dl have keep: "completed (stats w1) = completed (stats w) \<and> failed (stats w1) = failed (stats w)
     \<and> skipped (stats w1) = skipped (stats w) \<and> total (stats w1) = total (stats w)"
    using download_attempts_counts [OF dl [unfolded download_with_retry_def]] by simp
  show ?thesis
    using assms False dl keep
    by (auto simp: download_file_def Let_def bump_failed_def bump_completed_def bump_converted_def
             split: option.splits sum.splits if_splits)
qed

lemma run_tasks_counts:
  "completed (stats (run_tasks cfg self env i ms output_dir w))
     + failed (stats (run_tasks cfg self env i ms output_dir w))
     + skipped (stats (run_tasks cfg self env i ms output_dir w))
   = completed (stats w) + failed (stats w) + skipped (stats w) + length ms
   \<and> total (stats (run_tasks cfg self env i ms output_dir w)) = total (stats w)"
proof (induction ms arbitrary: i w)
  case Nil
  then show ?case by simp
next
  case (Cons m ms)
  obtain ok w' where step: "download_file cfg self (env i) m output_dir w = (ok, w')"
    by (cases "download_file cfg self (env i) m output_dir w")
  from download_file_outcome [OF step]
  have "completed (stats w') + failed (stats w') + skipped (stats w')
          = completed (stats w) + failed (stats w) + skipped (stats w) + 1"
    and "total (stats w') = total (stats w)"
    by auto
  with Cons.IH [of "Suc i" w'] step show ?case by simp
qed

text \<open>
  Claim C6. Each task moves exactly one of the counters \<open>completed\<close>, \<open>failed\<close> and
  \<open>skipped\<close> up by one and leaves the other two alone; the retry loop of a task is bounded,
  so every task ends. The statistics a batch returns therefore satisfy
  \<open>completed + failed + skipped = total\<close>, and \<open>total\<close> is the number of assets passed in.
\<close>

theorem batch_accounts_for_every_asset:
  "(completed (stats (snd (download_file cfg self e media output_dir w))),
    failed (stats (snd (download_file cfg self e media output_dir w))),
    skipped (stats (snd (download_file cfg self e media output_dir w))))
     \<in> {(completed (stats w) + 1, failed (stats w), skipped (stats w)),
         (completed (stats w), failed (stats w) + 1, skipped (stats w)),
         (completed (stats w), failed (stats w), skipped (stats w) + 1)}
   \<and> completed (download_media_files cfg self env assets output_dir)
       + failed (download_media_files cfg self env assets output_dir)
       + skipped (download_media_files cfg self env assets output_dir)
     = total (download_media_files cfg self env assets output_dir)
   \<and> total (download_media_files cfg self env assets output_dir) = length assets"
proof -
  obtain ok w' where step: "download_file cfg self e media output_dir w = (ok, w')"
    by (cases "download_file cfg self e media output_dir w")
  from download_file_outcome [OF step] have one: "(completed (stats w'), failed (stats w'),
      skipped (stats w'))
     \<in> {(completed (stats w) + 1, failed (stats w), skipped (stats w)),
         (completed (stats w), failed (stats w) + 1, skipped (stats w)),
         (completed (stats w), failed (stats w), skipped (stats w) + 1)}"
    by auto
  from run_tasks_counts [of cfg self env 0 assets output_dir "new_batch assets"]
  have sum: "completed (download_media_files cfg self env assets output_dir)
       + failed (download_media_files cfg self env assets output_dir)
       + skipped (download_media_files cfg self env assets output_dir)
     = total (download_media_files cfg self env assets output_dir)
   \<and> total (download_media_files cfg self env assets output_dir) = length assets"
    by (simp add: download_media_files_def batch_world_def new_batch_def)
  from one sum step show ?thesis by simp
qed

section \<open>The order of the tasks\<close>

text \<open>
  A task acts on the shared state by adding to the counters and appending to the trace,
  and what it adds does not depend on the state it starts from. Two tasks therefore leave
  the same statistics in either order, which is why the batch may be run in list order.
\<close>

lemma advance_advance: "advance d2 es2 (advance d1 es1 w) = advance (add_stats d1 d2) (es1 @ es2) w"
  by (simp add: advance_def add_stats_def)

lemma add_stats_commute: "add_stats a b = add_stats b a"
  by (simp add: add_stats_def)

lemma download_attempts_advance:
  "\<exists>r d es. \<forall>w. download_attempts maxr replies url atts w = (r, advance d es w)"
proof (induction atts)
  case Nil
  have "\<forall>w. download_attempts maxr replies url [] w = (None, advance zero_stats [] w)"
    by (simp add: advance_def add_stats_def zero_stats_def)
  then show ?case by blast
next
  case (Cons a atts)
  then obtain r d es where IH: "\<And>w. download_attempts maxr replies url atts w = (r, advance d es w)"
    by blast
  show ?case
  proof (cases "attempt_get (replies a)")
    case (Return x)
    then have "\<forall>w. download_attempts maxr replies url (a # atts) w = (x, advance zero_stats [Get url] w)"
      by (simp add: advance_def add_stats_def zero_stats_def)
    then show ?thesis by blast
  next
    case Fall_through
    define b where "b = (if int a < int maxr - 1 then zero_stats\<lparr>retried := 1\<rparr> else zero_stats)"
    define bes where "bes = (if int a < int maxr - 1 then [Get url, Sleep (1 * (a + 1))] else [Get url])"
    have "backoff maxr a (w\<lparr>events := events w @ [Get url]\<rparr>) = advance b bes w" for w
      by (simp add: backoff_def advance_def add_stats_def zero_stats_def b_def bes_def)
    with Fall_through IH
    have "\<forall>w. download_attempts maxr replies url (a # atts) w = (r, advance (add_stats b d) (bes @ es) w)"
      by (simp add: advance_advance)
    then show ?thesis by blast
  qed
qed

lemma download_file_advance:
  "\<exists>ok d es. \<forall>w. download_file cfg self env media output_dir w = (ok, advance d es w)"
proof (cases "file_exists cfg (dir_seen env) output_dir (m_filename media)")
  case True
  then have "\<forall>w. download_file cfg self env media output_dir w
               = (True, advance (zero_stats\<lparr>skipped := 1\<rparr>) [] w)"
    by (simp add: download_file_def bump_skipped_def advance_def add_stats_def zero_stats_def)
  then show ?thesis by blast
next
  case False
  obtain r d es where dl: "\<And>w. download_with_retry self (replies_to env) (m_url media) w
                              = (r, advance d es w)"
    using download_attempts_advance unfolding download_with_retry_def by blast
  have f: "bump_failed (advance d es w) = advance (add_stats d (zero_stats\<lparr>failed := 1\<rparr>)) es w" for w d
    by (simp add: bump_failed_def advance_def add_stats_def zero_stats_def)
  have c: "bump_converted (advance d es w) = advance (add_stats d (zero_stats\<lparr>converted := 1\<rparr>)) es w" for w d
    by (simp add: bump_converted_def advance_def add_stats_def zero_stats_def)
  have k: "bump_completed p x (advance d es w)
             = advance (add_stats d (zero_stats\<lparr>completed := 1, total_bytes := length x\<rparr>))
                 (es @ [Write p x]) w" for w d p x
    by (simp add: bump_completed_def advance_def add_stats_def zero_stats_def)
  show ?thesis
  proof (cases r)
    case None
    with False dl f have "\<forall>w. download_file cfg self env media output_dir w
               = (False, advance (add_stats d (zero_stats\<lparr>failed := 1\<rparr>)) es w)"
      by (simp add: download_file_def Let_def)
    then show ?thesis by blast
  next
    case (Some content)
    define filepath where
      "filepath = path_join output_dir (if should_convert cfg (m_filename media)
                              then get_jpg_filename (m_filename media) else m_filename media)"
    show ?thesis
    proof (cases "should_convert cfg (m_filename media)")
      case conv: True
      show ?thesis
      proof (cases "convert_image_to_jpg (pillow env) content (JPG_QUALITY cfg)")
        case (Inl e)
        with False dl Some conv f
        have "\<forall>w. download_file cfg self env media output_dir w
               = (False, advance (add_stats d (zero_stats\<lparr>failed := 1\<rparr>)) es w)"
          by (simp add: download_file_def Let_def)
        then show ?thesis by blast
      next
        case (Inr jpg)
        show ?thesis
        proof (cases "write_ok env filepath jpg")
          case True
          with False dl Some conv Inr
          have "\<forall>w. download_file cfg self env media output_dir w
               = (True, advance (add_stats (add_stats d (zero_stats\<lparr>converted := 1\<rparr>))
                                   (zero_stats\<lparr>completed := 1, total_bytes := length jpg\<rparr>))
                          (es @ [Write filepath jpg]) w)"
            by (simp add: download_file_def Let_def c k filepath_def)
          then show ?thesis by blast
        next
          case nw: False
          with False dl Some conv Inr
          have "\<forall>w. download_file cfg self env media output_dir w
               = (False, advance (add_stats (add_stats d (zero_stats\<lparr>converted := 1\<rparr>))
                                   (zero_stats\<lparr>failed := 1\<rparr>)) es w)"
            by (simp add: download_file_def Let_def c f filepath_def)
          then show ?thesis by blast
        qed
      qed
    next
      case nconv: False
      show ?thesis
      proof (cases "write_ok env filepath content")
        case True
        with False dl Some nconv
        have "\<forall>w. download_file cfg self env media output_dir w
               = (True, advance (add_stats d
                                   (zero_stats\<lparr>completed := 1, total_bytes := length content\<rparr>))
                          (es @ [Write filepath content]) w)"
          by (simp add: download_file_def Let_def k filepath_def)
        then show ?thesis by blast
      next
        case nw: False
        with False dl Some nconv
        have "\<forall>w. download_file cfg self env media output_dir w
               = (False, advance (add_stats d (zero_stats\<lparr>failed := 1\<rparr>)) es w)"
          by (simp add: download_file_def Let_def f filepath_def)
        then show ?thesis by blast
      qed
    qed
  qed
qed

lemma tasks_commute_on_stats:
  "stats (snd (download_file cfg self e2 m2 output_dir
                 (snd (download_file cfg self e1 m1 output_dir w))))
   = stats (snd (download_file cfg self e1 m1 output_dir
                   (snd (download_file cfg self e2 m2 output_dir w))))"
proof -
  obtain ok1 d1 es1 where 1: "\<And>w. download_file cfg self e1 m1 output_dir w = (ok1, advance d1 es1 w)"
    using download_file_advance by blast
  obtain ok2 d2 es2 where 2: "\<And>w. download_file cfg self e2 m2 output_dir w = (ok2, advance d2 es2 w)"
    using download_file_advance by blast
  show ?thesis
    by (simp add: 1 2 advance_def add_stats_def)
qed

section \<open>The retry loop\<close>

lemma transient_falls_through:
  "transient_failure r \<longleftrightarrow> attempt_get r = Fall_through"
  by (auto simp: transient_failure_def attempt_get_def split: reply.splits sum.splits)

lemma requests_of_append [simp]: "requests_of (xs @ ys) = requests_of xs @ requests_of ys"
  by (induction xs rule: requests_of.induct) simp_all

lemma sleeps_of_append [simp]: "sleeps_of (xs @ ys) = sleeps_of xs @ sleeps_of ys"
  by (induction xs rule: sleeps_of.induct) simp_all

lemma requests_of_attempts:
  "requests_of (concat (map (\<lambda>k. Get url # (if k < n then [Sleep (k * 1)] else [])) ks))
     = replicate (length ks) url"
  by (induction ks) simp_all

lemma sleeps_of_attempts:
  "sleeps_of (concat (map (\<lambda>k. Get url # (if k < n then [Sleep (k * 1)] else [])) ks))
     = filter (\<lambda>k. k < n) ks"
  by (induction ks) simp_all

lemma requests_of_retry_trace: "requests_of (retry_trace url n) = replicate n url"
  by (simp add: retry_trace_def requests_of_attempts del: upt_Suc)

lemma filter_less_upt: "filter (\<lambda>k. k < n) [i..<Suc n] = [i..<n]"
  by simp

lemma sleeps_of_retry_trace: "sleeps_of (retry_trace url n) = [1..<n]"
  by (simp add: retry_trace_def sleeps_of_attempts del: upt_Suc) simp

lemma attempts_all_transient:
  assumes "\<forall>j. i \<le> j \<and> j < n \<longrightarrow> transient_failure (replies j)" and "i \<le> n"
  shows "download_attempts n replies url [i..<n] w =
           (None, w\<lparr>events := events w @
                      concat (map (\<lambda>k. Get url # (if k < n then [Sleep (k * 1)] else []))
                                [Suc i..<Suc n]),
                    stats := (stats w)\<lparr>retried := retried (stats w) + (n - 1 - i)\<rparr>\<rparr>)"
  using assms
proof (induction "n - i" arbitrary: i w)
  case 0
  then show ?case by simp
next
  case (Suc k)
  then have lt: "i < n" and k: "k = n - Suc i" by simp_all
  from Suc.prems lt have ft: "attempt_get (replies i) = Fall_through"
    by (simp add: transient_falls_through [symmetric])
  have IH: "download_attempts n replies url [Suc i..<n] w' =
           (None, w'\<lparr>events := events w' @
                      concat (map (\<lambda>k. Get url # (if k < n then [Sleep (k * 1)] else []))
                                [Suc (Suc i)..<Suc n]),
                    stats := (stats w')\<lparr>retried := retried (stats w') + (n - 1 - Suc i)\<rparr>\<rparr>)" for w'
    using Suc.hyps(1) [OF k] Suc.prems lt by simp
  define w1 where "w1 = backoff n i (w\<lparr>events := events w @ [Get url]\<rparr>)"
  have unroll: "[Suc i..<Suc n] = Suc i # [Suc (Suc i)..<Suc n]"
    using lt by (simp add: upt_conv_Cons del: upt_Suc)
  have "download_attempts n replies url [i..<n] w = download_attempts n replies url [Suc i..<n] w1"
    by (simp add: upt_conv_Cons [OF lt] ft w1_def)
  also have "\<dots> = (None, w1\<lparr>events := events w1 @
                      concat (map (\<lambda>k. Get url # (if k < n then [Sleep (k * 1)] else []))
                                [Suc (Suc i)..<Suc n]),
                    stats := (stats w1)\<lparr>retried := retried (stats w1) + (n - 1 - Suc i)\<rparr>\<rparr>)"
    by (rule IH)
  also have "w1\<lparr>events := events w1 @
                      concat (map (\<lambda>k. Get url # (if k < n then [Sleep (k * 1)] else []))
                                [Suc (Suc i)..<Suc n]),
                    stats := (stats w1)\<lparr>retried := retried (stats w1) + (n - 1 - Suc i)\<rparr>\<rparr>
             = w\<lparr>events := events w @
                      concat (map (\<lambda>k. Get url # (if k < n then [Sleep (k * 1)] else []))
                                [Suc i..<Suc n]),
                    stats := (stats w)\<lparr>retried := retried (stats w) + (n - 1 - i)\<rparr>\<rparr>"
  proof (cases "Suc i < n")
    case True
    then show ?thesis
      by (simp add: w1_def backoff_def unroll del: upt_Suc)
  next
    case False
    with lt have "n = Suc i" by simp
    then show ?thesis
      by (simp add: w1_def backoff_def)
  qed
  finally show ?case .
qed

text \<open>
  Claim C3. If every one of the \<open>max_retries\<close> attempts on a URL fails transiently, the
  retrying downloader returns \<open>None\<close> (its failure value) after exactly \<open>max_retries\<close>
  requests. Between two consecutive attempts, and only there, it sleeps: after attempt
  number \<open>attemptIndex\<close> (counted from 1) for \<open>attemptIndex * 1\<close> seconds, so the delays
  are \<open>1, 2, \<dots>, max_retries - 1\<close>, strictly increasing, and the \<open>retried\<close> counter grows
  by one for each of these \<open>max_retries - 1\<close> retries.
\<close>

theorem transient_errors_exhaust_retries:
  assumes "\<forall>i<max_retries self. transient_failure (replies i)"
  shows "download_with_retry self replies url w =
           (None, w\<lparr>events := events w @ retry_trace url (max_retries self),
                    stats := (stats w)\<lparr>retried := retried (stats w) + (max_retries self - 1)\<rparr>\<rparr>)
         \<and> requests_of (retry_trace url (max_retries self)) = replicate (max_retries self) url
         \<and> sleeps_of (retry_trace url (max_retries self))
             = map (\<lambda>attemptIndex. attemptIndex * 1) [1..<max_retries self]
         \<and> sorted_wrt (<) (sleeps_of (retry_trace url (max_retries self)))
         \<and> length (sleeps_of (retry_trace url (max_retries self))) = max_retries self - 1"
proof -
  from assms have "\<forall>j. 0 \<le> j \<and> j < max_retries self \<longrightarrow> transient_failure (replies j)"
    by simp
  from attempts_all_transient [OF this, of url w]
  have run: "download_with_retry self replies url w =
           (None, w\<lparr>events := events w @ retry_trace url (max_retries self),
                    stats := (stats w)\<lparr>retried := retried (stats w) + (max_retries self - 1)\<rparr>\<rparr>)"
    by (simp add: download_with_retry_def retry_trace_def del: upt_Suc)
  show ?thesis
    by (simp add: run requests_of_retry_trace sleeps_of_retry_trace)
qed

text \<open>Three attempts: a timeout, then twice status 503.\<close>

theorem transient_errors_exhaust_retries_witness:
  "transient_failure TimeoutError \<and> transient_failure (Response 503 (Inr []))
   \<and> download_with_retry \<lparr>max_concurrent = 5, max_retries = 3\<rparr>
        (\<lambda>i. if i = 0 then TimeoutError else Response 503 (Inr [])) ''u'' (new_batch [])
      = (None, (new_batch [])\<lparr>events := [Get ''u'', Sleep 1, Get ''u'', Sleep 2, Get ''u''],
                 stats := (stats (new_batch []))\<lparr>retried := 2\<rparr>\<rparr>)"
proof -
  have h: "\<forall>i<max_retries \<lparr>max_concurrent = 5, max_retries = 3\<rparr>.
       transient_failure ((\<lambda>i. if i = 0 then TimeoutError else Response 503 (Inr [])) i)"
    by (simp add: transient_failure_def)
  from transient_errors_exhaust_retries [OF h, of "''u''" "new_batch []"]
  show ?thesis
    by (simp add: retry_trace_def new_batch_def upt_rec transient_failure_def)
qed





section \<open>The image transcoder\<close>

lemma decode_raises_when_open_raises:
  "pil_import P = None \<Longrightarrow> pil_open P content = Inl e \<Longrightarrow> decode_to_rgb P content = Inl e"
  by (simp add: decode_to_rgb_def and_then_def)

lemma decode_raises_when_import_raises:
  "pil_import P = Some e \<Longrightarrow> decode_to_rgb P content = Inl e"
  by (simp add: decode_to_rgb_def and_then_def)

text \<open>
  Claim C7. \<open>convert_image_to_jpg\<close> never raises: for every content, every quality and
  every behaviour of Pillow it returns bytes. Whenever its \<open>try\<close> block raises, be it
  at the import, at \<open>Image.open\<close>, anywhere else in decoding, or at \<open>save\<close>, it returns the
  content it was given, unchanged; when nothing raises it returns what \<open>save\<close> produced.
\<close>

theorem convert_image_to_jpg_never_fails:
  "(\<exists>output. convert_image_to_jpg P content quality = Inr output)
   \<and> (\<forall>e. convert_image_to_jpg_try P content quality = Inl e \<longrightarrow>
          convert_image_to_jpg P content quality = Inr content)
   \<and> (\<forall>e. pil_import P = Some e \<or> pil_open P content = Inl e
            \<or> decode_to_rgb P content = Inl e \<longrightarrow>
          convert_image_to_jpg P content quality = Inr content)
   \<and> (\<forall>im e. decode_to_rgb P content = Inr im \<and> pil_save P im ''JPEG'' quality True = Inl e
          \<longrightarrow> convert_image_to_jpg P content quality = Inr content)
   \<and> (\<forall>im output. decode_to_rgb P content = Inr im
            \<and> pil_save P im ''JPEG'' quality True = Inr output
          \<longrightarrow> convert_image_to_jpg P content quality = Inr output)"
proof -
  have a: "\<exists>output. convert_image_to_jpg P content quality = Inr output"
    by (simp add: convert_image_to_jpg_def split: sum.splits)
  have b: "convert_image_to_jpg P content quality = Inr content"
    if "convert_image_to_jpg_try P content quality = Inl e" for e
    using that by (simp add: convert_image_to_jpg_def)
  have d: "convert_image_to_jpg_try P content quality = Inl e"
    if "decode_to_rgb P content = Inl e" for e
    using that by (simp add: convert_image_to_jpg_try_def and_then_def)
  have c: "convert_image_to_jpg P content quality = Inr content"
    if "pil_import P = Some e \<or> pil_open P content = Inl e \<or> decode_to_rgb P content = Inl e" for e
  proof (cases "pil_import P")
    case None
    with that have "decode_to_rgb P content = Inl e"
      by (auto simp: decode_raises_when_open_raises)
    then show ?thesis by (simp add: b d)
  next
    case (Some e')
    then have "decode_to_rgb P content = Inl e'" by (rule decode_raises_when_import_raises)
    then show ?thesis by (simp add: b d)
  qed
  have s: "convert_image_to_jpg_try P content quality = pil_save P im ''JPEG'' quality True"
    if "decode_to_rgb P content = Inr im" for im
    using that by (simp add: convert_image_to_jpg_try_def and_then_def)
  show ?thesis
    using a b c s by (auto simp: convert_image_to_jpg_def)
qed

text \<open>
  Three runs on the same two bytes: a Pillow that cannot decode them, one that works, and
  one whose encoder fails.
\<close>

theorem convert_image_to_jpg_never_fails_witness:
  "pil_open broken_pil [0x89, 0x50] = Inl (Raised ''UnidentifiedImageError'')
   \<and> convert_image_to_jpg broken_pil [0x89, 0x50] 85 = Inr [0x89, 0x50]
   \<and> decode_to_rgb working_pil [0x89, 0x50]
       = Inr \<lparr>img_mode = ''RGB'', img_size = (1, 1), img_data = []\<rparr>
   \<and> pil_save working_pil \<lparr>img_mode = ''RGB'', img_size = (1, 1), img_data = []\<rparr>
        ''JPEG'' 85 True = Inr [0xFF, 0xD8]
   \<and> convert_image_to_jpg working_pil [0x89, 0x50] 85 = Inr [0xFF, 0xD8]
   \<and> pil_save (working_pil\<lparr>pil_save := \<lambda>im format quality optimize. Inl (Raised ''OSError'')\<rparr>)
        \<lparr>img_mode = ''RGB'', img_size = (1, 1), img_data = []\<rparr> ''JPEG'' 85 True
       = Inl (Raised ''OSError'')
   \<and> convert_image_to_jpg
        (working_pil\<lparr>pil_save := \<lambda>im format quality optimize. Inl (Raised ''OSError'')\<rparr>)
        [0x89, 0x50] 85 = Inr [0x89, 0x50]"
proof -
  have o: "pil_open broken_pil [0x89, 0x50] = Inl (Raised ''UnidentifiedImageError'')"
    by (simp add: broken_pil_def)
  have d: "decode_to_rgb working_pil [0x89, 0x50]
       = Inr \<lparr>img_mode = ''RGB'', img_size = (1, 1), img_data = []\<rparr>"
    by (simp add: decode_to_rgb_def and_then_def working_pil_def)
  have sv: "pil_save working_pil \<lparr>img_mode = ''RGB'', img_size = (1, 1), img_data = []\<rparr>
        ''JPEG'' 85 True = Inr [0xFF, 0xD8]"
    by (simp add: working_pil_def)
  have d2: "decode_to_rgb
        (working_pil\<lparr>pil_save := \<lambda>im format quality optimize. Inl (Raised ''OSError'')\<rparr>)
        [0x89, 0x50] = Inr \<lparr>img_mode = ''RGB'', img_size = (1, 1), img_data = []\<rparr>"
    by (simp add: decode_to_rgb_def and_then_def working_pil_def)
  have sv2: "pil_save (working_pil\<lparr>pil_save := \<lambda>im format quality optimize. Inl (Raised ''OSError'')\<rparr>)
        \<lparr>img_mode = ''RGB'', img_size = (1, 1), img_data = []\<rparr> ''JPEG'' 85 True
       = Inl (Raised ''OSError'')"
    by simp
  from convert_image_to_jpg_never_fails [of broken_pil "[0x89, 0x50]" 85]
       convert_image_to_jpg_never_fails [of working_pil "[0x89, 0x50]" 85]
       convert_image_to_jpg_never_fails
         [of "working_pil\<lparr>pil_save := \<lambda>im format quality optimize. Inl (Raised ''OSError'')\<rparr>"
             "[0x89, 0x50]" 85]
  show ?thesis
    using o d sv d2 sv2 by blast
qed

section \<open>Leftmost matches\<close>



section \<open>Folder names\<close>





















section \<open>The page count of a tag\<close>









text \<open>
  Outside that statement: a label such as a superscript two, which \<open>isdigit\<close> accepts and
  \<open>int\<close> rejects, makes the function raise.
\<close>

lemma superscript_label_raises:
  "link_pages 5 \<lparr>a_href = ''/?tags=5'', a_text = [CHR 0xB2]\<rparr> 1 = Inl (Raised ''ValueError'')"
  by (simp add: link_pages_def str_int_def str_nat.simps match_index_offset_def
      isdigit_def is_digit_char_def is_decimal_def py_int_def and_then_def)

section \<open>Walking the pages of a tag\<close>









section \<open>Previews of collected originals\<close>

lemma startswith_append: "startswith s (p @ q) \<Longrightarrow> startswith s p"
  by (induction s p rule: startswith.induct) auto

lemma contains_append: "contains s (p @ q) \<Longrightarrow> contains s p"
proof (induction s)
  case Nil
  then show ?case by simp
next
  case (Cons x s)
  then show ?case using startswith_append [of "x # s" p q] by auto
qed

lemma preview_is_storage: "contains s ''/storage/t/'' \<Longrightarrow> contains s ''/storage/''"
  using contains_append [of s "''/storage/''" "''t/''"] by simp

lemma startswith_same: "startswith (p @ s) p"
  by (induction p) auto

lemma endswith_append: "endswith (a @ b) b"
  by (simp add: endswith_def startswith_same)

lemma endswith_iff: "endswith s p \<longleftrightarrow> (\<exists>a. s = a @ p)"
proof -
  have "startswith s p \<longleftrightarrow> (\<exists>r. s = p @ r)" for s p :: string
    by (induction s p rule: startswith.induct) auto
  then have "endswith s p \<longleftrightarrow> (\<exists>r. rev s = rev p @ r)" by (simp add: endswith_def)
  also have "\<dots> \<longleftrightarrow> (\<exists>a. s = a @ p)"
  proof
    assume "\<exists>r. rev s = rev p @ r"
    then obtain r where "rev s = rev p @ r" by blast
    then have "s = rev r @ p" by (metis rev_append rev_rev_ident)
    then show "\<exists>a. s = a @ p" by blast
  next
    assume "\<exists>a. s = a @ p"
    then show "\<exists>r. rev s = rev p @ r" by auto
  qed
  finally show ?thesis .
qed

lemma thumb_has_no_file_type:
  assumes "endswith filename ''.thumb''"
  shows "get_file_type filename = None"
proof -
  from assms obtain a where "filename = a @ ''.thumb''" by (auto simp: endswith_iff)
  then have l: "lower filename = lower a @ ''.thumb''"
    by (simp add: lower_def lower_char_def)
  show ?thesis
    unfolding get_file_type_def Let_def l
    by (simp add: endswith_def MEDIA_EXTENSIONS_images_def MEDIA_EXTENSIONS_videos_def
        MEDIA_EXTENSIONS_other_def)
qed

lemma convertible_is_image:
  assumes "lower (snd (splitext filename)) \<in> set CONVERTIBLE_EXTENSIONS"
  shows "get_file_type filename = Some ''image''"
proof -
  have "filename = fst (splitext filename) @ snd (splitext filename)"
    by (simp add: splitext_join)
  then have "lower filename = lower (fst (splitext filename)) @ lower (snd (splitext filename))"
    by (metis lower_def map_append)
  then have "endswith (lower filename) (lower (snd (splitext filename)))"
    by (simp add: endswith_append)
  with assms have "list_ex (endswith (lower filename)) MEDIA_EXTENSIONS_images"
    by (auto simp: CONVERTIBLE_EXTENSIONS_def MEDIA_EXTENSIONS_images_def)
  then show ?thesis by (simp add: get_file_type_def)
qed

lemma local_name_of_original:
  "(if get_file_type filename = Some ''image'' then get_html_filename cfg filename else filename)
     = get_html_filename cfg filename"
  using convertible_is_image [of filename]
  by (auto simp: get_html_filename_def case_prod_unfold Let_def)

lemma anchor_step_collected:
  assumes "originals_collected lib st"
  shows "originals_collected lib (snd (anchor_step lib cfg domain link st))"
proof -
  define full_url where "full_url = (if startswith (a_href link) ''http'' then a_href link
                            else normalize_url lib domain (a_href link))"
  define filename where "filename = extract_filename lib full_url"
  show ?thesis
  proof (cases "contains (a_href link) ''/storage/'' \<and> \<not> contains (a_href link) ''/storage/t/''")
    case False
    with assms show ?thesis by (auto simp: anchor_step_def)
  next
    case storage: True
    show ?thesis
    proof (cases "get_file_type filename")
      case None
      with storage assms show ?thesis
        by (simp add: anchor_step_def Let_def full_url_def filename_def)
    next
      case (Some file_type)
      show ?thesis
      proof (cases "list_ex (\<lambda>m. m_url m = full_url) (media_files st)")
        case True
        then obtain m where m: "m \<in> set (media_files st)" "m_url m = full_url"
          by (auto simp: list_ex_iff)
        with assms have "m_filename m = filename"
          by (auto simp: originals_collected_def list_all_iff filename_def)
        with m assms have "insert filename (original_filenames st) = original_filenames st"
          by (auto simp: originals_collected_def)
        with True storage Some assms show ?thesis
          by (simp add: anchor_step_def Let_def full_url_def [symmetric] filename_def [symmetric]
              originals_collected_def)
      next
        case False
        with storage Some assms show ?thesis
          by (simp add: anchor_step_def Let_def full_url_def [symmetric] filename_def [symmetric]
              originals_collected_def)
      qed
    qed
  qed
qed

lemma anchors_loop_Cons:
  "anchors_loop lib cfg domain (link # links) st =
     (fst (anchor_step lib cfg domain link st)
        # fst (anchors_loop lib cfg domain links (snd (anchor_step lib cfg domain link st))),
      snd (anchors_loop lib cfg domain links (snd (anchor_step lib cfg domain link st))))"
  by (simp add: case_prod_unfold Let_def)

lemma imgs_loop_Cons:
  "imgs_loop lib cfg domain vh (im # ims) st =
     (fst (img_step lib cfg domain vh im st)
        # fst (imgs_loop lib cfg domain vh ims (snd (img_step lib cfg domain vh im st))),
      snd (imgs_loop lib cfg domain vh ims (snd (img_step lib cfg domain vh im st))))"
  by (simp add: case_prod_unfold Let_def)

lemma anchors_loop_collected:
  "originals_collected lib st \<Longrightarrow>
     originals_collected lib (snd (anchors_loop lib cfg domain links st))"
proof (induction links arbitrary: st)
  case Nil
  then show ?case by simp
next
  case (Cons link links)
  from anchor_step_collected [OF Cons.prems, of cfg domain link]
  have "originals_collected lib (snd (anchors_loop lib cfg domain links
          (snd (anchor_step lib cfg domain link st))))"
    by (rule Cons.IH)
  then show ?case by (simp only: anchors_loop_Cons snd_conv)
qed

lemma img_step_keeps_originals:
  "original_filenames st \<subseteq> original_filenames (snd (img_step lib cfg domain vh im st))"
  by (auto simp: img_step_def Let_def)

lemma imgs_loop_keeps_originals:
  "original_filenames st \<subseteq> original_filenames (snd (imgs_loop lib cfg domain vh ims st))"
proof (induction ims arbitrary: st)
  case Nil
  then show ?case by simp
next
  case (Cons im ims)
  have "original_filenames st \<subseteq> original_filenames (snd (img_step lib cfg domain vh im st))"
    by (rule img_step_keeps_originals)
  also have "\<dots> \<subseteq> original_filenames (snd (imgs_loop lib cfg domain vh ims
                     (snd (img_step lib cfg domain vh im st))))"
    by (rule Cons.IH)
  finally show ?case by (simp only: imgs_loop_Cons snd_conv)
qed

lemma imgs_loop_append:
  "imgs_loop lib cfg domain vh (xs @ ys) st =
     (fst (imgs_loop lib cfg domain vh xs st)
        @ fst (imgs_loop lib cfg domain vh ys (snd (imgs_loop lib cfg domain vh xs st))),
      snd (imgs_loop lib cfg domain vh ys (snd (imgs_loop lib cfg domain vh xs st))))"
  by (induction xs arbitrary: st) (simp_all add: imgs_loop_Cons del: imgs_loop.simps(2))

lemma imgs_loop_length: "length (fst (imgs_loop lib cfg domain vh ims st)) = length ims"
  by (induction ims arbitrary: st) (simp_all add: imgs_loop_Cons del: imgs_loop.simps(2))

lemma img_step_preview:
  assumes "img_source im \<noteq> []" and "contains (img_source im) ''/storage/t/''"
      and "\<not> list_ex (contains (img_source im)) chrome_markers"
      and "extract_filename lib (img_source im) \<in> original_filenames st"
      and "\<not> endswith (extract_filename lib (img_source im)) ''.thumb''"
  shows "img_step lib cfg domain vh im st =
           (set_sources im (''media/'' @ get_html_filename cfg
                                           (extract_filename lib (img_source im))), st)"
  using assms preview_is_storage [OF assms(2)]
  by (simp add: img_step_def Let_def)

text \<open>
  A page with the anchor of an original \<open>icon.png\<close> and an image showing its preview.
\<close>

lemma chrome_page_1: "extract_filename plain_lib ''/storage/t/icon.png'' = ''icon.png''"
  by code_simp

lemma chrome_page_2: "extract_filename plain_lib ''https://arhivach.vc/storage/a/bb/icon.png'' = ''icon.png''"
  by code_simp

lemma chrome_page_3: "normalize_url plain_lib ''https://arhivach.vc'' ''/storage/a/bb/icon.png''
   = ''https://arhivach.vc/storage/a/bb/icon.png''"
  by code_simp

lemma chrome_page_4: "get_file_type ''icon.png'' = Some ''image''"
  by code_simp

lemma chrome_page_5: "get_html_filename default_config ''icon.png'' = ''icon.jpg''"
  by code_simp

lemma chrome_page_6: "anchor_step plain_lib default_config ''https://arhivach.vc''
        \<lparr>a_href = ''/storage/a/bb/icon.png'', a_text = []\<rparr>
        \<lparr>media_files = [], original_filenames = {}\<rparr>
       = (\<lparr>a_href = ''media/icon.jpg'', a_text = []\<rparr>,
          \<lparr>media_files = [\<lparr>m_url = ''https://arhivach.vc/storage/a/bb/icon.png'',
                            m_filename = ''icon.png'', m_file_type = ''image''\<rparr>],
            original_filenames = {''icon.png''}\<rparr>)"
  by (simp add: anchor_step_def Let_def chrome_page_2 chrome_page_3 chrome_page_4 chrome_page_5)

lemma chrome_page_7:
  "img_step plain_lib default_config ''https://arhivach.vc'' vh
     \<lparr>i_src = Some ''/storage/t/icon.png'', i_data_src = None\<rparr> st
   = (\<lparr>i_src = Some ''/storage/t/icon.png'', i_data_src = None\<rparr>, st)"
  by (simp add: img_step_def Let_def img_source_def truthy_def chrome_markers_def)

text \<open>
  Claim C2 speaks of every image whose source is a preview path with the filename of a
  collected original. The image pass first drops every source that contains one of the
  markers \<open>favicon\<close>, \<open>logo\<close>, \<open>icon\<close>, \<open>avatar\<close>, \<open>button\<close>: the preview of
  \<open>icon.png\<close> keeps its remote source although the original was collected.
\<close>

theorem preview_is_repointed_to_original_counterexample:
  "parse_thread_media plain_lib default_config ''https://arhivach.vc''
     [\<lparr>a_href = ''/storage/a/bb/icon.png'', a_text = []\<rparr>]
     [\<lparr>i_src = Some ''/storage/t/icon.png'', i_data_src = None\<rparr>]
   = ([\<lparr>a_href = ''media/icon.jpg'', a_text = []\<rparr>],
      [\<lparr>i_src = Some ''/storage/t/icon.png'', i_data_src = None\<rparr>],
      [\<lparr>m_url = ''https://arhivach.vc/storage/a/bb/icon.png'', m_filename = ''icon.png'',
        m_file_type = ''image''\<rparr>])
   \<and> contains ''/storage/t/icon.png'' ''/storage/t/''
   \<and> extract_filename plain_lib ''/storage/t/icon.png'' = ''icon.png''"
  by (simp add: parse_thread_media_def chrome_page_1 chrome_page_6 chrome_page_7)


text \<open>
  Claim C2, amended. Let an image element of the page have a source that lies under the
  preview prefix \<open>/storage/t/\<close>, that contains none of the markers \<open>favicon\<close>, \<open>logo\<close>,
  \<open>icon\<close>, \<open>avatar\<close>, \<open>button\<close>, and whose filename is the filename of an asset collected
  from the anchors of the page. Then, wherever the element stands among the images, its
  step adds no asset (the state is the same before and after), and its \<open>src\<close> and
  \<open>data-src\<close> attributes, as far as they are present and not empty, are set to \<open>media/\<close>
  followed by the local name of the original: the \<open>.jpg\<close> name when conversion is on and
  the extension is convertible, the filename itself otherwise. That is the path the
  anchor of the original was rewritten to. Such a filename never ends in \<open>.thumb\<close>, so
  the element is not taken for a video thumbnail.
\<close>

theorem preview_is_repointed_to_original:
  assumes "anchors_loop lib cfg domain links \<lparr>media_files = [], original_filenames = {}\<rparr>
             = (links1, st1)"
      and "vh = video_hash_to_filename_of (media_files st1)"
      and "imgs_loop lib cfg domain vh before st1 = (before1, st2)"
      and "contains (img_source im) ''/storage/t/''"
      and "\<not> list_ex (contains (img_source im)) chrome_markers"
      and "filename = extract_filename lib (img_source im)"
      and "\<exists>m\<in>set (media_files st1). m_filename m = filename"
  shows "img_step lib cfg domain vh im st2
           = (set_sources im (''media/'' @ get_html_filename cfg filename), st2)
         \<and> media_files (snd (img_step lib cfg domain vh im st2)) = media_files st2
         \<and> fst (snd (parse_thread_media lib cfg domain links (before @ im # rest)))
             ! length before
             = set_sources im (''media/'' @ get_html_filename cfg filename)
         \<and> (truthy (i_src im) \<longrightarrow>
              i_src (set_sources im (''media/'' @ get_html_filename cfg filename))
                = Some (''media/'' @ get_html_filename cfg filename))
         \<and> (truthy (i_data_src im) \<longrightarrow>
              i_data_src (set_sources im (''media/'' @ get_html_filename cfg filename))
                = Some (''media/'' @ get_html_filename cfg filename))
         \<and> get_html_filename cfg filename
             = (if get_file_type filename = Some ''image''
                then get_html_filename cfg filename else filename)"
proof -
  have "originals_collected lib \<lparr>media_files = [], original_filenames = {}\<rparr>"
    by (simp add: originals_collected_def)
  from anchors_loop_collected [OF this, of cfg domain links] assms(1)
  have col: "originals_collected lib st1" by simp
  from assms(7) obtain m where m: "m \<in> set (media_files st1)" "m_filename m = filename"
    by blast
  with col have in1: "filename \<in> original_filenames st1"
    and ty: "get_file_type filename \<noteq> None"
    by (auto simp: originals_collected_def list_all_iff)
  from imgs_loop_keeps_originals [of st1 lib cfg domain vh before] assms(3) in1
  have in2: "filename \<in> original_filenames st2" by auto
  have nt: "\<not> endswith filename ''.thumb''"
  proof
    assume "endswith filename ''.thumb''"
    from thumb_has_no_file_type [OF this] ty show False by simp
  qed
  from assms(4) have ne: "img_source im \<noteq> []" by (cases "img_source im") auto
  have step: "img_step lib cfg domain vh im st2
           = (set_sources im (''media/'' @ get_html_filename cfg filename), st2)"
    using img_step_preview [OF ne assms(4) assms(5), of lib st2 cfg domain vh] in2 nt
    by (simp add: assms(6))
  have len: "length (fst (imgs_loop lib cfg domain vh before st1)) = length before"
    by (rule imgs_loop_length)
  have "fst (imgs_loop lib cfg domain vh (before @ im # rest) st1) ! length before
          = set_sources im (''media/'' @ get_html_filename cfg filename)"
    using assms(3) step len
    by (simp add: imgs_loop_append imgs_loop_Cons nth_append del: imgs_loop.simps(2))
  then have nth: "fst (snd (parse_thread_media lib cfg domain links (before @ im # rest)))
             ! length before
             = set_sources im (''media/'' @ get_html_filename cfg filename)"
    using assms(1) assms(2)
    by (simp add: parse_thread_media_def case_prod_unfold Let_def del: imgs_loop.simps(2))
  show ?thesis
    using step nth local_name_of_original [of filename cfg]
    by (simp add: set_sources_def)
qed

text \<open>
  A page with the anchor of an original \<open>ab12cd.png\<close> and one image showing its preview
  in both attributes.
\<close>

lemma original_page_1: "extract_filename plain_lib ''/storage/t/ab12cd.png'' = ''ab12cd.png''"
  by code_simp

lemma original_page_2: "extract_filename plain_lib ''https://arhivach.vc/storage/a/bb/ab12cd.png'' = ''ab12cd.png''"
  by code_simp

lemma original_page_3: "normalize_url plain_lib ''https://arhivach.vc'' ''/storage/a/bb/ab12cd.png''
   = ''https://arhivach.vc/storage/a/bb/ab12cd.png''"
  by code_simp

lemma original_page_4: "get_file_type ''ab12cd.png'' = Some ''image''"
  by code_simp

lemma original_page_5: "get_html_filename default_config ''ab12cd.png'' = ''ab12cd.jpg''"
  by code_simp

lemma original_page_6: "anchor_step plain_lib default_config ''https://arhivach.vc''
        \<lparr>a_href = ''/storage/a/bb/ab12cd.png'', a_text = []\<rparr>
        \<lparr>media_files = [], original_filenames = {}\<rparr>
       = (\<lparr>a_href = ''media/ab12cd.jpg'', a_text = []\<rparr>,
          \<lparr>media_files = [\<lparr>m_url = ''https://arhivach.vc/storage/a/bb/ab12cd.png'',
                            m_filename = ''ab12cd.png'', m_file_type = ''image''\<rparr>],
            original_filenames = {''ab12cd.png''}\<rparr>)"
  by (simp add: anchor_step_def Let_def original_page_2 original_page_3 original_page_4 original_page_5)

lemma original_page_7:
  "''ab12cd.png'' \<in> original_filenames st \<Longrightarrow>
   img_step plain_lib default_config ''https://arhivach.vc'' vh
     \<lparr>i_src = Some ''/storage/t/ab12cd.png'', i_data_src = Some ''/storage/t/ab12cd.png''\<rparr> st
   = (\<lparr>i_src = Some ''media/ab12cd.jpg'', i_data_src = Some ''media/ab12cd.jpg''\<rparr>, st)"
  by (simp add: img_step_def Let_def img_source_def truthy_def chrome_markers_def original_page_1 original_page_5
      set_sources_def endswith_def)

theorem preview_is_repointed_to_original_witness:
  "contains ''/storage/t/ab12cd.png'' ''/storage/t/''
   \<and> \<not> list_ex (contains ''/storage/t/ab12cd.png'') chrome_markers
   \<and> extract_filename plain_lib ''/storage/t/ab12cd.png'' = ''ab12cd.png''
   \<and> anchors_loop plain_lib default_config ''https://arhivach.vc''
        [\<lparr>a_href = ''/storage/a/bb/ab12cd.png'', a_text = []\<rparr>]
        \<lparr>media_files = [], original_filenames = {}\<rparr>
       = ([\<lparr>a_href = ''media/ab12cd.jpg'', a_text = []\<rparr>],
          \<lparr>media_files = [\<lparr>m_url = ''https://arhivach.vc/storage/a/bb/ab12cd.png'',
                            m_filename = ''ab12cd.png'', m_file_type = ''image''\<rparr>],
            original_filenames = {''ab12cd.png''}\<rparr>)
   \<and> fst (snd (parse_thread_media plain_lib default_config ''https://arhivach.vc''
        [\<lparr>a_href = ''/storage/a/bb/ab12cd.png'', a_text = []\<rparr>]
        [\<lparr>i_src = Some ''/storage/t/ab12cd.png'',
           i_data_src = Some ''/storage/t/ab12cd.png''\<rparr>])) ! 0
       = \<lparr>i_src = Some ''media/ab12cd.jpg'', i_data_src = Some ''media/ab12cd.jpg''\<rparr>
   \<and> parse_thread_media plain_lib default_config ''https://arhivach.vc''
        [\<lparr>a_href = ''/storage/a/bb/ab12cd.png'', a_text = []\<rparr>]
        [\<lparr>i_src = Some ''/storage/t/ab12cd.png'', i_data_src = Some ''/storage/t/ab12cd.png''\<rparr>]
       = ([\<lparr>a_href = ''media/ab12cd.jpg'', a_text = []\<rparr>],
          [\<lparr>i_src = Some ''media/ab12cd.jpg'', i_data_src = Some ''media/ab12cd.jpg''\<rparr>],
          [\<lparr>m_url = ''https://arhivach.vc/storage/a/bb/ab12cd.png'',
            m_filename = ''ab12cd.png'', m_file_type = ''image''\<rparr>])"
proof -
  define im where
    "im = \<lparr>i_src = Some ''/storage/t/ab12cd.png'', i_data_src = Some ''/storage/t/ab12cd.png''\<rparr>"
  define st1 where
    "st1 = \<lparr>media_files = [\<lparr>m_url = ''https://arhivach.vc/storage/a/bb/ab12cd.png'',
                            m_filename = ''ab12cd.png'', m_file_type = ''image''\<rparr>],
            original_filenames = {''ab12cd.png''}\<rparr>"
  have src: "img_source im = ''/storage/t/ab12cd.png''"
    by (simp add: im_def img_source_def truthy_def)
  have h1: "anchors_loop plain_lib default_config ''https://arhivach.vc''
        [\<lparr>a_href = ''/storage/a/bb/ab12cd.png'', a_text = []\<rparr>]
        \<lparr>media_files = [], original_filenames = {}\<rparr>
       = ([\<lparr>a_href = ''media/ab12cd.jpg'', a_text = []\<rparr>], st1)"
    by (simp add: st1_def original_page_6)
  have h3: "imgs_loop plain_lib default_config ''https://arhivach.vc''
              (video_hash_to_filename_of (media_files st1)) [] st1 = ([], st1)"
    by simp
  have c1: "contains ''/storage/t/ab12cd.png'' ''/storage/t/''" by simp
  have c2: "\<not> list_ex (contains ''/storage/t/ab12cd.png'') chrome_markers"
    by (simp add: chrome_markers_def)
  have h4: "contains (img_source im) ''/storage/t/''" unfolding src by (rule c1)
  have h5: "\<not> list_ex (contains (img_source im)) chrome_markers" unfolding src by (rule c2)
  have fn: "''ab12cd.png'' = extract_filename plain_lib (img_source im)"
    unfolding src by (simp add: original_page_1)
  have h7: "\<exists>m\<in>set (media_files st1). m_filename m = ''ab12cd.png''"
    by (simp add: st1_def)
  from preview_is_repointed_to_original [OF h1 refl h3 h4 h5 fn h7, where rest = "[]"]
  have "fst (snd (parse_thread_media plain_lib default_config ''https://arhivach.vc''
                    [\<lparr>a_href = ''/storage/a/bb/ab12cd.png'', a_text = []\<rparr>] ([] @ [im])))
          ! length ([]::img list)
          = set_sources im (''media/'' @ get_html_filename default_config ''ab12cd.png'')"
    by (rule conjunct1 [OF conjunct2 [OF conjunct2]])
  then have c5: "fst (snd (parse_thread_media plain_lib default_config ''https://arhivach.vc''
        [\<lparr>a_href = ''/storage/a/bb/ab12cd.png'', a_text = []\<rparr>]
        [\<lparr>i_src = Some ''/storage/t/ab12cd.png'',
           i_data_src = Some ''/storage/t/ab12cd.png''\<rparr>])) ! 0
       = \<lparr>i_src = Some ''media/ab12cd.jpg'', i_data_src = Some ''media/ab12cd.jpg''\<rparr>"
    by (simp add: im_def original_page_5 set_sources_def truthy_def)
  have c6: "parse_thread_media plain_lib default_config ''https://arhivach.vc''
        [\<lparr>a_href = ''/storage/a/bb/ab12cd.png'', a_text = []\<rparr>]
        [\<lparr>i_src = Some ''/storage/t/ab12cd.png'', i_data_src = Some ''/storage/t/ab12cd.png''\<rparr>]
       = ([\<lparr>a_href = ''media/ab12cd.jpg'', a_text = []\<rparr>],
          [\<lparr>i_src = Some ''media/ab12cd.jpg'', i_data_src = Some ''media/ab12cd.jpg''\<rparr>],
          [\<lparr>m_url = ''https://arhivach.vc/storage/a/bb/ab12cd.png'',
            m_filename = ''ab12cd.png'', m_file_type = ''image''\<rparr>])"
    by (simp add: parse_thread_media_def original_page_6 original_page_7)
  show ?thesis
    by (intro conjI) (rule c1, rule c2, rule original_page_1, rule h1 [unfolded st1_def], rule c5, rule c6)
qed

end
